theory Spec2Isabelle
  imports Complex_Main
begin

section \<open>The data model of \<open>BaseTweenData\<close>\<close>

text \<open>
  The source is \<^verbatim>\<open>src/tweens/tween/BaseTweenData.js\<close>. A JavaScript number is
  modelled as a \<open>real\<close>: the arithmetic of the class is additions, one
  multiplication and one division, and the development reads it exactly (no rounding,
  no \<^verbatim>\<open>NaN\<close>, no infinities). Indices into the target array are \<open>nat\<close>; an index
  beyond the array reads \<^verbatim>\<open>undefined\<close>, which is \<open>None\<close> here.

  A thrown \<^verbatim>\<open>TypeError\<close> (a member read from \<^verbatim>\<open>null\<close> or \<^verbatim>\<open>undefined\<close>, a
  call of something that is not a function) is the value \<open>Inl TypeError\<close>; the
  partially updated object is not observed after a throw.
\<close>

datatype error = TypeError

text \<open>
  The states of \<^verbatim>\<open>TWEEN_CONST\<close> that the class uses. The constructor stores the
  literal \<^verbatim>\<open>0\<close>, which is \<open>Created\<close>.
\<close>

datatype state_type =
  Created | Delay | PendingRender | PlayingForward | PlayingBackward
  | HoldDelay | RepeatDelay | Complete

datatype tween_event = TWEEN_REPEAT | TWEEN_YOYO

text \<open>
  A target is any object: a mapping from property names to numbers. The two
  toggle operations are code of the target, opaque to the class: each is some
  function on the target's properties, about which nothing is assumed;
  \<open>None\<close> is a target that has no such method.
\<close>

record target =
  props :: "string \<Rightarrow> real option"
  toggleFlipX :: "((string \<Rightarrow> real option) \<Rightarrow> (string \<Rightarrow> real option)) option"
  toggleFlipY :: "((string \<Rightarrow> real option) \<Rightarrow> (string \<Rightarrow> real option)) option"

text \<open>
  The owning Tween, as far as the class reads and writes it. The field
  \<^verbatim>\<open>tween.duration\<close> is \<open>tween_duration\<close> here, since the unit has a field
  \<^verbatim>\<open>duration\<close> of its own.
\<close>

record tween =
  targets :: "target list"
  totalTargets :: nat
  isInfinite :: bool
  tween_duration :: real
  startDelay :: real

text \<open>
  The callbacks have the signature
  \<^verbatim>\<open>(target, key, value, targetIndex, totalTargets, tween)\<close>. They are taken to
  return a number and to have no effect of their own.
\<close>

type_synonym resolver =
  "target option \<Rightarrow> string \<Rightarrow> real \<Rightarrow> nat \<Rightarrow> nat \<Rightarrow> tween \<Rightarrow> real"

text \<open>
  The object \<^verbatim>\<open>this\<close>. The first block of fields is what the constructor of
  \<^verbatim>\<open>BaseTweenData\<close> initialises; \<open>tween\<close> and \<open>getDelay\<close> are optional because
  \<^verbatim>\<open>destroy\<close> sets them to \<^verbatim>\<open>null\<close>. The second block is the members that the
  subclasses add and that the methods of this class read and write (\<^verbatim>\<open>end\<close> is
  \<open>endv\<close>). The owner is held by reference in the source; here the unit carries
  the owner's current value, and every write to the owner or to a target goes
  through the field \<open>tween\<close>. The last field is the log of the calls of
  \<^verbatim>\<open>dispatchEvent\<close>.
\<close>

record tweendata =
  tween :: "tween option"
  targetIndex :: nat
  duration :: real
  totalDuration :: real
  delay :: real
  getDelay :: "resolver option"
  yoyo :: bool
  hold :: real
  repeat :: real
  repeatDelay :: real
  repeatCounter :: real
  flipX :: bool
  flipY :: bool
  progress :: real
  elapsed :: real
  state :: state_type
  isCountdown :: bool
  key :: string
  start :: real
  endv :: real
  current :: real
  getStartValue :: resolver
  getEndValue :: resolver
  ease :: "real \<Rightarrow> real"
  dispatched :: "(tween_event \<times> string) list"

section \<open>The constructor\<close>

definition BaseTweenData ::
  "tweendata \<Rightarrow> tween \<Rightarrow> nat \<Rightarrow> resolver \<Rightarrow> real \<Rightarrow> bool \<Rightarrow> real \<Rightarrow> real \<Rightarrow> real
     \<Rightarrow> bool \<Rightarrow> bool \<Rightarrow> tweendata" where
  "BaseTweenData this tween' targetIndex' delay' duration' yoyo' hold' repeat'
      repeatDelay' flipX' flipY' =
     this\<lparr>tween := Some tween',
          targetIndex := targetIndex',
          duration := (if duration' \<le> 0 then 0.01 else duration'),
          totalDuration := 0,
          delay := 0,
          getDelay := Some delay',
          yoyo := yoyo',
          hold := hold',
          repeat := repeat',
          repeatDelay := repeatDelay',
          repeatCounter := 0,
          flipX := flipX',
          flipY := flipY',
          progress := 0,
          elapsed := 0,
          state := Created,
          isCountdown := False\<rparr>"

section \<open>The state setters\<close>

definition setCreatedState :: "tweendata \<Rightarrow> tweendata" where
  "setCreatedState u = u\<lparr>state := Created, isCountdown := False\<rparr>"

definition setDelayState :: "tweendata \<Rightarrow> tweendata" where
  "setDelayState u = u\<lparr>state := Delay, isCountdown := True\<rparr>"

definition setPendingRenderState :: "tweendata \<Rightarrow> tweendata" where
  "setPendingRenderState u = u\<lparr>state := PendingRender, isCountdown := False\<rparr>"

definition setPlayingForwardState :: "tweendata \<Rightarrow> tweendata" where
  "setPlayingForwardState u = u\<lparr>state := PlayingForward, isCountdown := False\<rparr>"

definition setPlayingBackwardState :: "tweendata \<Rightarrow> tweendata" where
  "setPlayingBackwardState u = u\<lparr>state := PlayingBackward, isCountdown := False\<rparr>"

definition setHoldState :: "tweendata \<Rightarrow> tweendata" where
  "setHoldState u = u\<lparr>state := HoldDelay, isCountdown := True\<rparr>"

definition setRepeatState :: "tweendata \<Rightarrow> tweendata" where
  "setRepeatState u = u\<lparr>state := RepeatDelay, isCountdown := True\<rparr>"

definition setCompleteState :: "tweendata \<Rightarrow> tweendata" where
  "setCompleteState u = u\<lparr>state := Complete, isCountdown := False\<rparr>"

section \<open>Targets and notifications\<close>

text \<open>\<^verbatim>\<open>tween.targets[targetIndex]\<close>: \<^verbatim>\<open>undefined\<close> beyond the array.\<close>

definition targetAt :: "tween \<Rightarrow> nat \<Rightarrow> target option" where
  "targetAt tw i = (if i < length (targets tw) then Some (targets tw ! i) else None)"

text \<open>\<^verbatim>\<open>target.toggleFlipX()\<close> and \<^verbatim>\<open>target.toggleFlipY()\<close> on the unit's target.\<close>

definition callToggleFlipX :: "tween \<Rightarrow> nat \<Rightarrow> error + tween" where
  "callToggleFlipX tw i =
     (case targetAt tw i of
        None \<Rightarrow> Inl TypeError
      | Some t \<Rightarrow>
          (case toggleFlipX t of
             None \<Rightarrow> Inl TypeError
           | Some f \<Rightarrow> Inr (tw\<lparr>targets := (targets tw)[i := t\<lparr>props := f (props t)\<rparr>]\<rparr>)))"

definition callToggleFlipY :: "tween \<Rightarrow> nat \<Rightarrow> error + tween" where
  "callToggleFlipY tw i =
     (case targetAt tw i of
        None \<Rightarrow> Inl TypeError
      | Some t \<Rightarrow>
          (case toggleFlipY t of
             None \<Rightarrow> Inl TypeError
           | Some f \<Rightarrow> Inr (tw\<lparr>targets := (targets tw)[i := t\<lparr>props := f (props t)\<rparr>]\<rparr>)))"

text \<open>\<^verbatim>\<open>target[key] = value\<close> on the unit's target.\<close>

definition writeTarget :: "tween \<Rightarrow> nat \<Rightarrow> string \<Rightarrow> real \<Rightarrow> error + tween" where
  "writeTarget tw i k v =
     (case targetAt tw i of
        None \<Rightarrow> Inl TypeError
      | Some t \<Rightarrow> Inr (tw\<lparr>targets := (targets tw)[i := t\<lparr>props := (props t)(k \<mapsto> v)\<rparr>]\<rparr>))"

text \<open>
  Modelled from the spec: \<^verbatim>\<open>dispatchEvent\<close> is a method of the subclasses and is not
  in this file. The spec's notification sink receives named lifecycle
  notifications synchronously, in the order of the transitions that trigger
  them; the model appends the event and the callback name to the unit's log.
\<close>

definition dispatchEvent :: "tween_event \<Rightarrow> string \<Rightarrow> tweendata \<Rightarrow> tweendata" where
  "dispatchEvent event callback u = u\<lparr>dispatched := dispatched u @ [(event, callback)]\<rparr>"

section \<open>\<^verbatim>\<open>onRepeat\<close>\<close>

text \<open>
  The method in the order of its statements. The division
  \<^verbatim>\<open>diff / this.duration\<close> is by the stored duration, which the constructor
  keeps positive.
\<close>

definition onRepeat :: "real \<Rightarrow> bool \<Rightarrow> bool \<Rightarrow> tweendata \<Rightarrow> error + tweendata" where
  "onRepeat diff setStart isYoyo u =
     (case tween u of
        None \<Rightarrow> Inl TypeError
      | Some tw0 \<Rightarrow>
          let total = totalTargets tw0;
              i = targetIndex u;
              k = key u;
              isTweenData = (k \<noteq> ''texture'');
              u1 = u\<lparr>elapsed := diff, progress := diff / duration u\<rparr>
          in
          (case (if flipX u1 then callToggleFlipX tw0 i else Inr tw0) of
             Inl e \<Rightarrow> Inl e
           | Inr tw1 \<Rightarrow>
          (case (if flipY u1 then callToggleFlipY tw1 i else Inr tw1) of
             Inl e \<Rightarrow> Inl e
           | Inr tw2 \<Rightarrow>
               let u2 = u1\<lparr>tween := Some tw2\<rparr>;
                   u3 = (if isTweenData \<and> (setStart \<or> isYoyo)
                         then u2\<lparr>start := getStartValue u2 (targetAt tw2 i) k (start u2) i total tw2\<rparr>
                         else u2)
               in
               if isYoyo
               then Inr (dispatchEvent TWEEN_YOYO ''onYoyo'' (setPlayingBackwardState u3))
               else
                 let u4 = u3\<lparr>repeatCounter := repeatCounter u3 - 1\<rparr>;
                     u5 = (if isTweenData
                           then u4\<lparr>endv := getEndValue u4 (targetAt tw2 i) k (start u4) i total tw2\<rparr>
                           else u4)
                 in
                 if repeatDelay u5 > 0
                 then
                   let u6 = u5\<lparr>elapsed := repeatDelay u5 - diff\<rparr> in
                   if isTweenData
                   then
                     let u7 = u6\<lparr>current := start u6\<rparr> in
                     (case writeTarget tw2 i k (current u7) of
                        Inl e \<Rightarrow> Inl e
                      | Inr tw3 \<Rightarrow> Inr (setRepeatState (u7\<lparr>tween := Some tw3\<rparr>)))
                   else Inr (setRepeatState u6)
                 else Inr (dispatchEvent TWEEN_REPEAT ''onRepeat'' (setPlayingForwardState u5)))))"

section \<open>\<^verbatim>\<open>setStateFromEnd\<close> and \<^verbatim>\<open>setStateFromStart\<close>\<close>

definition setStateFromEnd :: "real \<Rightarrow> tweendata \<Rightarrow> error + tweendata" where
  "setStateFromEnd diff u =
     (if yoyo u then onRepeat diff True True u
      else if repeatCounter u > 0 then onRepeat diff True False u
      else Inr (setCompleteState u))"

text \<open>
  The call is \<^verbatim>\<open>this.onRepeat(diff, false)\<close>: the third argument is
  \<^verbatim>\<open>undefined\<close>, which the tests of \<^verbatim>\<open>isYoyo\<close> read as false.
\<close>

definition setStateFromStart :: "real \<Rightarrow> tweendata \<Rightarrow> error + tweendata" where
  "setStateFromStart diff u =
     (if repeatCounter u > 0 then onRepeat diff False False u
      else Inr (setCompleteState u))"

section \<open>\<^verbatim>\<open>reset\<close> and \<^verbatim>\<open>destroy\<close>\<close>

text \<open>
  \<^verbatim>\<open>TWEEN_CONST.MAX\<close> is declared in \<^verbatim>\<open>const.js\<close>, which is not part of the
  sources at hand: it is the parameter \<open>CONST_MAX\<close>. A
  conditional assignment \<^verbatim>\<open>if (c) { x.f = e; }\<close> is the update of \<open>f\<close> to
  \<open>if c then e else f x\<close>; the test of \<^verbatim>\<open>this.repeat\<close> is written once for the
  unit's \<open>totalDuration\<close> and once for the owner's flag, which the first branch
  sets.
\<close>

definition reset :: "real \<Rightarrow> tweendata \<Rightarrow> error + tweendata" where
  "reset CONST_MAX u =
     (case tween u of
        None \<Rightarrow> Inl TypeError
      | Some tw0 \<Rightarrow>
          let total = totalTargets tw0;
              i = targetIndex u;
              tgt = targetAt tw0 i;
              k = key u;
              u1 = u\<lparr>progress := 0, elapsed := 0\<rparr>
          in
          (case getDelay u1 of
             None \<Rightarrow> Inl TypeError
           | Some gd \<Rightarrow>
               let u2 = u1\<lparr>delay := gd tgt k 0 i total tw0\<rparr>;
                   u3 = u2\<lparr>repeatCounter := (if repeat u2 = - 1 then CONST_MAX else repeat u2)\<rparr>;
                   u4 = setPendingRenderState u3;
                   t1 = duration u4 + hold u4;
                   t1' = (if yoyo u4 then t1 + duration u4 else t1);
                   t2 = t1' + repeatDelay u4;
                   u5 = u4\<lparr>totalDuration := delay u4 + t1'\<rparr>;
                   u6 = u5\<lparr>totalDuration :=
                           (if repeat u5 = - 1 then totalDuration u5 + t2 * CONST_MAX
                            else if repeat u5 > 0 then totalDuration u5 + t2 * repeat u5
                            else totalDuration u5)\<rparr>;
                   tw1 = tw0\<lparr>isInfinite := (if repeat u5 = - 1 then True else isInfinite tw0)\<rparr>;
                   tw2 = tw1\<lparr>tween_duration :=
                           (if totalDuration u6 > tween_duration tw1 then totalDuration u6
                            else tween_duration tw1)\<rparr>;
                   tw3 = tw2\<lparr>startDelay :=
                           (if delay u6 < startDelay tw2 then delay u6 else startDelay tw2)\<rparr>;
                   u7 = u6\<lparr>tween := Some tw3\<rparr>
               in
               if delay u7 > 0
               then Inr (setDelayState (u7\<lparr>elapsed := delay u7\<rparr>))
               else Inr u7))"

definition destroy :: "tweendata \<Rightarrow> tweendata" where
  "destroy u = setCompleteState (u\<lparr>tween := None, getDelay := None\<rparr>)"

section \<open>The per-tick update\<close>

text \<open>
  Modelled from the spec: \<^verbatim>\<open>update\<close> is a method of the subclasses
  (\<^verbatim>\<open>TweenData.js\<close>), which is not among the sources. The definition follows
  the per-tick update contract and the state table of section 4.1 of the spec:
  \<^item> while \<open>isCountdown\<close> is true the remaining countdown is decremented by
    \<open>deltaMs\<close>; on crossing zero the unit makes the transition of its state
    (\<open>Delay\<close> to \<open>PendingRender\<close>; \<open>HoldDelay\<close> to the on-forward-end policy;
    \<open>RepeatDelay\<close> to \<open>PlayingForward\<close> with the start value re-snapshotted),
    the remainder being the overshoot carried into the next phase;
  \<^item> in \<open>PendingRender\<close> the next tick establishes the rendered start value and
    enters \<open>PlayingForward\<close>;
  \<^item> while playing, \<open>elapsedMs\<close> advances by \<open>deltaMs\<close>, \<open>progress\<close> is
    \<open>elapsedMs / duration\<close> clamped to at most 1, the interpolated value
    \<open>ease(progress) * (end - start) + start\<close> (the reverse direction when playing
    backward) is written to the target, and if \<open>elapsedMs \<ge> duration\<close> the on-end
    policy of the direction is invoked with \<open>diff = elapsedMs - duration\<close>; a
    positive \<open>holdMs\<close> pauses after the forward pass before that decision;
  \<^item> a unit that is \<open>Created\<close> or \<open>Complete\<close> does not progress.
  The outcome that the spec's \<^verbatim>\<open>update\<close> returns (\<open>JustCompleted\<close> or
  \<open>Continuing\<close>) is read off the state of the returned unit.
\<close>

definition update :: "real \<Rightarrow> tweendata \<Rightarrow> error + tweendata" where
  "update deltaMs u =
     (case tween u of
        None \<Rightarrow> Inl TypeError
      | Some tw \<Rightarrow>
          let i = targetIndex u; k = key u; total = totalTargets tw in
          if isCountdown u
          then
            let u1 = u\<lparr>elapsed := elapsed u - deltaMs\<rparr> in
            if elapsed u1 \<le> 0
            then
              let overshoot = - elapsed u1 in
              if state u1 = Delay
              then Inr (setPendingRenderState (u1\<lparr>elapsed := overshoot\<rparr>))
              else if state u1 = HoldDelay
              then setStateFromEnd overshoot u1
              else if state u1 = RepeatDelay
              then Inr (setPlayingForwardState
                     (u1\<lparr>elapsed := overshoot, progress := overshoot / duration u1,
                          start := getStartValue u1 (targetAt tw i) k (start u1) i total tw\<rparr>))
              else Inr u1
            else Inr u1
          else if state u = PendingRender
          then
            let u1 = u\<lparr>start := getStartValue u (targetAt tw i) k (start u) i total tw\<rparr>;
                u2 = u1\<lparr>endv := getEndValue u1 (targetAt tw i) k (start u1) i total tw\<rparr>;
                u3 = u2\<lparr>current := start u2\<rparr>
            in
            (case writeTarget tw i k (current u3) of
               Inl e \<Rightarrow> Inl e
             | Inr tw' \<Rightarrow> Inr (setPlayingForwardState (u3\<lparr>tween := Some tw'\<rparr>)))
          else if state u = PlayingForward \<or> state u = PlayingBackward
          then
            let forward = (state u = PlayingForward);
                u1 = u\<lparr>elapsed := elapsed u + deltaMs\<rparr>;
                u2 = u1\<lparr>progress := min 1 (elapsed u1 / duration u1)\<rparr>;
                u3 = u2\<lparr>current :=
                         (if forward
                          then ease u2 (progress u2) * (endv u2 - start u2) + start u2
                          else ease u2 (progress u2) * (start u2 - endv u2) + endv u2)\<rparr>
            in
            (case writeTarget tw i k (current u3) of
               Inl e \<Rightarrow> Inl e
             | Inr tw' \<Rightarrow>
                 let u4 = u3\<lparr>tween := Some tw'\<rparr> in
                 if elapsed u4 \<ge> duration u4
                 then
                   let diff = elapsed u4 - duration u4 in
                   if forward
                   then (if hold u4 > 0
                         then Inr (setHoldState (u4\<lparr>elapsed := hold u4\<rparr>))
                         else setStateFromEnd diff u4)
                   else setStateFromStart diff u4
                 else Inr u4)
          else Inr u)"

text \<open>Successive ticks; the first error ends the run.\<close>

fun updates :: "real list \<Rightarrow> tweendata \<Rightarrow> error + tweendata" where
  "updates [] u = Inr u"
| "updates (d # ds) u = (case update d u of Inl e \<Rightarrow> Inl e | Inr u' \<Rightarrow> updates ds u')"

text \<open>An observation of the unit before each tick and after the last one.\<close>

fun along :: "(tweendata \<Rightarrow> 'a) \<Rightarrow> real list \<Rightarrow> tweendata \<Rightarrow> 'a list" where
  "along f [] u = [f u]"
| "along f (d # ds) u =
     f u # (case update d u of Inl e \<Rightarrow> [] | Inr u' \<Rightarrow> along f ds u')"



text \<open>
  The configuration of a unit: the fields that the constructor sets and that no
  method of the class writes afterwards, with the key.
\<close>

definition config ::
  "tweendata \<Rightarrow> nat \<times> real \<times> bool \<times> real \<times> real \<times> real \<times> bool \<times> bool \<times> string" where
  "config u =
     (targetIndex u, duration u, yoyo u, hold u, repeat u, repeatDelay u, flipX u, flipY u,
      key u)"

text \<open>
  A unit is attached when it has an owner, its target exists, and the target has
  the toggles that the flip flags ask for: the contract of section 4.1 of the spec
  for the callers.
\<close>

definition attached :: "tweendata \<Rightarrow> bool" where
  "attached u \<longleftrightarrow>
     (case tween u of
        None \<Rightarrow> False
      | Some tw \<Rightarrow>
          targetIndex u < length (targets tw)
          \<and> (flipX u \<longrightarrow> toggleFlipX (targets tw ! targetIndex u) \<noteq> None)
          \<and> (flipY u \<longrightarrow> toggleFlipY (targets tw ! targetIndex u) \<noteq> None))"


section \<open>Calls in sequence\<close>

text \<open>
  The methods of the class as values, so that a unit can be followed through any
  sequence of calls; the first throw ends the sequence.
\<close>

datatype call =
  CallReset
  | CallOnRepeat real bool bool
  | CallSetStateFromEnd real
  | CallSetStateFromStart real
  | CallSetCreatedState
  | CallSetDelayState
  | CallSetPendingRenderState
  | CallSetPlayingForwardState
  | CallSetPlayingBackwardState
  | CallSetHoldState
  | CallSetRepeatState
  | CallSetCompleteState
  | CallDestroy

fun invoke :: "real \<Rightarrow> call \<Rightarrow> tweendata \<Rightarrow> error + tweendata" where
  "invoke CONST_MAX CallReset u = reset CONST_MAX u"
| "invoke CONST_MAX (CallOnRepeat diff setStart isYoyo) u = onRepeat diff setStart isYoyo u"
| "invoke CONST_MAX (CallSetStateFromEnd diff) u = setStateFromEnd diff u"
| "invoke CONST_MAX (CallSetStateFromStart diff) u = setStateFromStart diff u"
| "invoke CONST_MAX CallSetCreatedState u = Inr (setCreatedState u)"
| "invoke CONST_MAX CallSetDelayState u = Inr (setDelayState u)"
| "invoke CONST_MAX CallSetPendingRenderState u = Inr (setPendingRenderState u)"
| "invoke CONST_MAX CallSetPlayingForwardState u = Inr (setPlayingForwardState u)"
| "invoke CONST_MAX CallSetPlayingBackwardState u = Inr (setPlayingBackwardState u)"
| "invoke CONST_MAX CallSetHoldState u = Inr (setHoldState u)"
| "invoke CONST_MAX CallSetRepeatState u = Inr (setRepeatState u)"
| "invoke CONST_MAX CallSetCompleteState u = Inr (setCompleteState u)"
| "invoke CONST_MAX CallDestroy u = Inr (destroy u)"

fun invokes :: "real \<Rightarrow> call list \<Rightarrow> tweendata \<Rightarrow> error + tweendata" where
  "invokes CONST_MAX [] u = Inr u"
| "invokes CONST_MAX (c # cs) u =
     (case invoke CONST_MAX c u of Inl e \<Rightarrow> Inl e | Inr u' \<Rightarrow> invokes CONST_MAX cs u')"

text \<open>The two end-of-pass policies and \<^verbatim>\<open>onRepeat\<close>: the calls made during playback.\<close>

fun isPlaybackCall :: "call \<Rightarrow> bool" where
  "isPlaybackCall (CallOnRepeat diff setStart isYoyo) = True"
| "isPlaybackCall (CallSetStateFromEnd diff) = True"
| "isPlaybackCall (CallSetStateFromStart diff) = True"
| "isPlaybackCall c = False"

section \<open>Concrete units\<close>

text \<open>
  One target with a property \<^verbatim>\<open>x\<close> and a horizontal toggle that switches its
  property \<^verbatim>\<open>flipX\<close> between 0 and 1, an owner of that
  target, and an object \<^verbatim>\<open>this\<close> whose subclass members animate \<^verbatim>\<open>x\<close> linearly
  towards 100.
\<close>

definition example_target :: target where
  "example_target =
     \<lparr>props = [''x'' \<mapsto> 0],
      toggleFlipX = Some (\<lambda>p. p(''flipX'' \<mapsto> (if p ''flipX'' = Some 1 then 0 else 1))),
      toggleFlipY = None\<rparr>"

definition example_tween :: tween where
  "example_tween =
     \<lparr>targets = [example_target], totalTargets = 1, isInfinite = False,
      tween_duration = 0, startDelay = 0\<rparr>"

definition example_this :: tweendata where
  "example_this =
     \<lparr>tween = None, targetIndex = 0, duration = 0, totalDuration = 0, delay = 0,
      getDelay = None, yoyo = False, hold = 0, repeat = 0, repeatDelay = 0,
      repeatCounter = 0, flipX = False, flipY = False, progress = 0, elapsed = 0,
      state = Created, isCountdown = False,
      key = ''x'', start = 5, endv = 0, current = 0,
      getStartValue = (\<lambda>t k v i n tw. 7), getEndValue = (\<lambda>t k v i n tw. 100),
      ease = (\<lambda>p. p), dispatched = []\<rparr>"

definition no_delay :: resolver where
  "no_delay t k v i n tw = 0"

text \<open>A unit with two repeats left and a repeat delay of 50, flipping horizontally.\<close>

definition pause_unit :: tweendata where
  "pause_unit =
     (BaseTweenData example_this example_tween 0 no_delay 100 False 0 2 50 True False)
       \<lparr>repeatCounter := 2, state := PlayingForward\<rparr>"

text \<open>The same unit on the reserved key \<^verbatim>\<open>texture\<close>, without the flip.\<close>

definition texture_unit :: tweendata where
  "texture_unit =
     (BaseTweenData (example_this\<lparr>key := ''texture''\<rparr>) example_tween 0 no_delay
        100 False 0 2 50 False False)
       \<lparr>repeatCounter := 2, state := PlayingForward\<rparr>"

text \<open>The unit of the yoyo scenario: duration 100, yoyo, one repeat, no hold, no delays.\<close>

definition yoyo_unit :: tweendata where
  "yoyo_unit = BaseTweenData example_this example_tween 0 no_delay 100 True 0 1 0 False False"

text \<open>A unit that repeats three times without yoyo, hold or delays.\<close>

definition repeat_unit :: tweendata where
  "repeat_unit = BaseTweenData example_this example_tween 0 no_delay 100 False 0 3 0 False False"

text \<open>A unit that repeats forever.\<close>

definition infinite_unit :: tweendata where
  "infinite_unit =
     BaseTweenData example_this example_tween 0 no_delay 100 True 20 (- 1) 30 False False"



section \<open>Evaluation rules\<close>

lemmas setters =
  setCreatedState_def setDelayState_def setPendingRenderState_def
  setPlayingForwardState_def setPlayingBackwardState_def setHoldState_def
  setRepeatState_def setCompleteState_def

lemmas target_defs = targetAt_def writeTarget_def callToggleFlipX_def callToggleFlipY_def

lemmas example_defs =
  example_target_def example_tween_def example_this_def no_delay_def BaseTweenData_def

section \<open>What the methods keep and change\<close>

lemma onRepeat_config:
  "onRepeat diff setStart isYoyo u = Inr u' \<Longrightarrow> config u' = config u"
  by (auto simp: onRepeat_def Let_def setters dispatchEvent_def config_def
      split: option.splits sum.splits if_splits)

lemma onRepeat_effect:
  assumes "onRepeat diff setStart isYoyo u = Inr u'"
  shows "state u' =
           (if isYoyo then PlayingBackward
            else if repeatDelay u > 0 then RepeatDelay else PlayingForward)"
    and "isCountdown u' = (\<not> isYoyo \<and> repeatDelay u > 0)"
    and "repeatCounter u' = (if isYoyo then repeatCounter u else repeatCounter u - 1)"
    and "elapsed u' = (if \<not> isYoyo \<and> repeatDelay u > 0 then repeatDelay u - diff else diff)"
    and "progress u' = diff / duration u"
  using assms
  by (auto simp: onRepeat_def Let_def setters dispatchEvent_def
      split: option.splits sum.splits if_splits)

lemma onRepeat_attached:
  assumes "attached u"
  shows "\<exists>u'. onRepeat diff setStart isYoyo u = Inr u' \<and> attached u'"
  using assms
  by (auto simp: onRepeat_def Let_def setters dispatchEvent_def attached_def target_defs
      split: option.splits sum.splits if_splits)


lemma attached_cong:
  "tween u' = tween u \<Longrightarrow> config u' = config u \<Longrightarrow> attached u' = attached u"
  by (auto simp: attached_def config_def split: option.splits)

lemma attached_setCompleteState:
  "attached (setCompleteState u) = attached u"
  by (rule attached_cong) (simp_all add: setCompleteState_def config_def)

lemma setStateFromEnd_config:
  "setStateFromEnd diff u = Inr u' \<Longrightarrow> config u' = config u"
  by (auto simp: setStateFromEnd_def setCompleteState_def config_def
      split: if_splits dest: onRepeat_config)

lemma setStateFromStart_config:
  "setStateFromStart diff u = Inr u' \<Longrightarrow> config u' = config u"
  by (auto simp: setStateFromStart_def setCompleteState_def config_def
      split: if_splits dest: onRepeat_config)

lemma setStateFromEnd_attached:
  "attached u \<Longrightarrow> \<exists>u'. setStateFromEnd diff u = Inr u' \<and> attached u'"
  using onRepeat_attached [of u diff True True] onRepeat_attached [of u diff True False]
  by (simp add: setStateFromEnd_def attached_setCompleteState)

lemma setStateFromStart_attached:
  "attached u \<Longrightarrow> \<exists>u'. setStateFromStart diff u = Inr u' \<and> attached u'"
  using onRepeat_attached [of u diff False False]
  by (simp add: setStateFromStart_def attached_setCompleteState)

lemma attached_writeTarget:
  assumes "attached u" and "tween u = Some tw"
  shows "\<exists>tw'. writeTarget tw (targetIndex u) k v = Inr tw'
           \<and> attached (u\<lparr>tween := Some tw'\<rparr>)"
  using assms by (auto simp: attached_def target_defs split: option.splits)

lemma update_config:
  "update d u = Inr u' \<Longrightarrow> config u' = config u"
  apply (simp add: update_def Let_def setters split: option.splits if_splits sum.splits)
  apply (auto dest!: setStateFromEnd_config setStateFromStart_config simp: config_def)
  done


lemma setStateFromEnd_effect:
  assumes "setStateFromEnd diff u = Inr u'"
  shows "state u' =
           (if yoyo u then PlayingBackward
            else if repeatCounter u > 0
            then (if repeatDelay u > 0 then RepeatDelay else PlayingForward)
            else Complete)"
    and "isCountdown u' = (\<not> yoyo u \<and> repeatCounter u > 0 \<and> repeatDelay u > 0)"
    and "repeatCounter u' =
           (if \<not> yoyo u \<and> repeatCounter u > 0 then repeatCounter u - 1 else repeatCounter u)"
    and "yoyo u \<or> repeatCounter u > 0 \<Longrightarrow>
           elapsed u' = (if \<not> yoyo u \<and> repeatDelay u > 0 then repeatDelay u - diff else diff)"
  using assms onRepeat_effect [of diff True True u u'] onRepeat_effect [of diff True False u u']
  by (auto simp: setStateFromEnd_def setCompleteState_def split: if_splits)

lemma setStateFromStart_effect:
  assumes "setStateFromStart diff u = Inr u'"
  shows "state u' =
           (if repeatCounter u > 0
            then (if repeatDelay u > 0 then RepeatDelay else PlayingForward)
            else Complete)"
    and "isCountdown u' = (repeatCounter u > 0 \<and> repeatDelay u > 0)"
    and "repeatCounter u' =
           (if repeatCounter u > 0 then repeatCounter u - 1 else repeatCounter u)"
    and "repeatCounter u > 0 \<Longrightarrow>
           elapsed u' = (if repeatDelay u > 0 then repeatDelay u - diff else diff)"
  using assms onRepeat_effect [of diff False False u u']
  by (auto simp: setStateFromStart_def setCompleteState_def split: if_splits)

lemma update_forward_end:
  assumes "update d u = Inr u'" and "state u = PlayingForward" and "\<not> isCountdown u"
    and "duration u \<le> elapsed u + d" and "hold u \<le> 0"
  shows "state u' =
           (if yoyo u then PlayingBackward
            else if repeatCounter u > 0
            then (if repeatDelay u > 0 then RepeatDelay else PlayingForward)
            else Complete)"
    and "isCountdown u' = (\<not> yoyo u \<and> repeatCounter u > 0 \<and> repeatDelay u > 0)"
    and "repeatCounter u' =
           (if \<not> yoyo u \<and> repeatCounter u > 0 then repeatCounter u - 1 else repeatCounter u)"
    and "yoyo u \<or> repeatCounter u > 0 \<Longrightarrow>
           elapsed u' =
             (if \<not> yoyo u \<and> repeatDelay u > 0 then repeatDelay u - (elapsed u + d - duration u)
              else elapsed u + d - duration u)"
proof -
  from assms obtain v where v: "setStateFromEnd (elapsed u + d - duration u) v = Inr u'"
    and c: "yoyo v = yoyo u" "repeatCounter v = repeatCounter u" "repeatDelay v = repeatDelay u"
    by (auto simp: update_def Let_def split: option.splits sum.splits if_splits)
  show "state u' =
           (if yoyo u then PlayingBackward
            else if repeatCounter u > 0
            then (if repeatDelay u > 0 then RepeatDelay else PlayingForward)
            else Complete)"
    using setStateFromEnd_effect(1) [OF v] c by simp
  show "isCountdown u' = (\<not> yoyo u \<and> repeatCounter u > 0 \<and> repeatDelay u > 0)"
    using setStateFromEnd_effect(2) [OF v] c by simp
  show "repeatCounter u' =
           (if \<not> yoyo u \<and> repeatCounter u > 0 then repeatCounter u - 1 else repeatCounter u)"
    using setStateFromEnd_effect(3) [OF v] c by simp
  show "elapsed u' =
             (if \<not> yoyo u \<and> repeatDelay u > 0 then repeatDelay u - (elapsed u + d - duration u)
              else elapsed u + d - duration u)" if "yoyo u \<or> repeatCounter u > 0"
    using setStateFromEnd_effect(4) [OF v] c that by simp
qed

lemma update_backward_end:
  assumes "update d u = Inr u'" and "state u = PlayingBackward" and "\<not> isCountdown u"
    and "duration u \<le> elapsed u + d"
  shows "state u' =
           (if repeatCounter u > 0
            then (if repeatDelay u > 0 then RepeatDelay else PlayingForward)
            else Complete)"
    and "isCountdown u' = (repeatCounter u > 0 \<and> repeatDelay u > 0)"
    and "repeatCounter u' =
           (if repeatCounter u > 0 then repeatCounter u - 1 else repeatCounter u)"
    and "repeatCounter u > 0 \<Longrightarrow>
           elapsed u' =
             (if repeatDelay u > 0 then repeatDelay u - (elapsed u + d - duration u)
              else elapsed u + d - duration u)"
proof -
  from assms obtain v where v: "setStateFromStart (elapsed u + d - duration u) v = Inr u'"
    and c: "repeatCounter v = repeatCounter u" "repeatDelay v = repeatDelay u"
    by (auto simp: update_def Let_def split: option.splits sum.splits if_splits)
  show "state u' =
           (if repeatCounter u > 0
            then (if repeatDelay u > 0 then RepeatDelay else PlayingForward)
            else Complete)"
    using setStateFromStart_effect(1) [OF v] c by simp
  show "isCountdown u' = (repeatCounter u > 0 \<and> repeatDelay u > 0)"
    using setStateFromStart_effect(2) [OF v] c by simp
  show "repeatCounter u' =
           (if repeatCounter u > 0 then repeatCounter u - 1 else repeatCounter u)"
    using setStateFromStart_effect(3) [OF v] c by simp
  show "elapsed u' =
             (if repeatDelay u > 0 then repeatDelay u - (elapsed u + d - duration u)
              else elapsed u + d - duration u)" if "repeatCounter u > 0"
    using setStateFromStart_effect(4) [OF v] c that by simp
qed





lemma attached_updates:
  "attached (u\<lparr>elapsed := a\<rparr>) = attached u"
  "attached (u\<lparr>progress := a\<rparr>) = attached u"
  "attached (u\<lparr>start := a\<rparr>) = attached u"
  "attached (u\<lparr>endv := a\<rparr>) = attached u"
  "attached (u\<lparr>current := a\<rparr>) = attached u"
  "attached (u\<lparr>state := s\<rparr>) = attached u"
  "attached (u\<lparr>isCountdown := b\<rparr>) = attached u"
  by (rule attached_cong; simp add: config_def)+

lemma attached_write:
  assumes "attached u" and "tween u = Some tw"
  shows "writeTarget tw (targetIndex u) k v =
           Inr (tw\<lparr>targets := (targets tw)[targetIndex u :=
                  (targets tw ! targetIndex u)\<lparr>props := (props (targets tw ! targetIndex u))(k \<mapsto> v)\<rparr>]\<rparr>)"
    and "attached (u\<lparr>tween := Some (tw\<lparr>targets := (targets tw)[targetIndex u :=
                  (targets tw ! targetIndex u)\<lparr>props := p\<rparr>]\<rparr>)\<rparr>)"
  using assms by (auto simp: attached_def target_defs split: option.splits)

lemma update_attached:
  assumes "attached u"
  shows "\<exists>u'. update d u = Inr u' \<and> attached u'"
proof -
  from assms obtain tw where tw: "tween u = Some tw"
    by (auto simp: attached_def split: option.splits)
  have w: "attached (v\<lparr>tween := Some (tw\<lparr>targets := (targets tw)[targetIndex u :=
                  (targets tw ! targetIndex u)\<lparr>props := p\<rparr>]\<rparr>)\<rparr>)"
    if "config v = config u" for v p
  proof -
    have "attached (v\<lparr>tween := Some (tw\<lparr>targets := (targets tw)[targetIndex u :=
                  (targets tw ! targetIndex u)\<lparr>props := p\<rparr>]\<rparr>)\<rparr>)
        = attached (u\<lparr>tween := Some (tw\<lparr>targets := (targets tw)[targetIndex u :=
                  (targets tw ! targetIndex u)\<lparr>props := p\<rparr>]\<rparr>)\<rparr>)"
      by (rule attached_cong) (use that in \<open>simp_all add: config_def\<close>)
    then show ?thesis using attached_write(2) [OF assms tw] by simp
  qed
  show ?thesis
    using assms tw
    by (auto simp: update_def Let_def setters attached_updates attached_write(1) config_def
        intro!: setStateFromEnd_attached setStateFromStart_attached w)
qed

lemma Inr_if_eq:
  "((if c then Inr a else Inr b) = (Inr x :: 'e + 'a)) = (x = (if c then a else b))"
  by auto

lemma reset_effect:
  assumes "reset M u = Inr u'"
  shows "config u' = config u"
    and "repeatCounter u' = (if repeat u = - 1 then M else repeat u)"
    and "progress u' = 0"
    and "state u' = (if delay u' > 0 then Delay else PendingRender)"
    and "isCountdown u' = (delay u' > 0)"
    and "elapsed u' = (if delay u' > 0 then delay u' else 0)"
    and "dispatched u' = dispatched u"
  using assms
  by (simp_all add: reset_def Let_def setters Inr_if_eq config_def split: option.splits cong: if_cong)

lemma reset_delay:
  assumes "reset M u = Inr u'"
  shows "\<exists>tw gd. tween u = Some tw \<and> getDelay u = Some gd
    \<and> delay u' = gd (targetAt tw (targetIndex u)) (key u) 0 (targetIndex u) (totalTargets tw) tw"
    and "getDelay u' = getDelay u"
  using assms
  by (simp_all add: reset_def Let_def setters Inr_if_eq split: option.splits cong: if_cong)

lemma reset_totalDuration:
  assumes "reset M u = Inr u'"
  shows "totalDuration u' =
           delay u' + (duration u + hold u + (if yoyo u then duration u else 0))
           + (if repeat u = - 1
              then (duration u + hold u + (if yoyo u then duration u else 0) + repeatDelay u) * M
              else if repeat u > 0
              then (duration u + hold u + (if yoyo u then duration u else 0) + repeatDelay u)
                     * repeat u
              else 0)"
  using assms
  by (simp add: reset_def Let_def setters Inr_if_eq split: option.splits cong: if_cong)

lemma reset_owner:
  assumes "reset M u = Inr u'" and "tween u = Some tw"
  shows "\<exists>tw'. tween u' = Some tw'
    \<and> targets tw' = targets tw \<and> totalTargets tw' = totalTargets tw
    \<and> isInfinite tw' = (repeat u = - 1 \<or> isInfinite tw)
    \<and> tween_duration tw' = max (tween_duration tw) (totalDuration u')
    \<and> startDelay tw' = min (startDelay tw) (delay u')"
  using assms
  by (simp add: reset_def Let_def setters Inr_if_eq max_def min_def
      split: option.splits cong: if_cong)

lemma config_fields:
  assumes "config u' = config u"
  shows "targetIndex u' = targetIndex u" "duration u' = duration u" "yoyo u' = yoyo u"
    "hold u' = hold u" "repeat u' = repeat u" "repeatDelay u' = repeatDelay u"
    "flipX u' = flipX u" "flipY u' = flipY u" "key u' = key u"
  using assms by (simp_all add: config_def)





lemma yoyo_scenario:
  assumes a: "attached u" and cfg: "duration u = 100" "yoyo u" "hold u = 0" "repeatDelay u = 0"
    and st: "state u = PlayingForward" "\<not> isCountdown u" "elapsed u = 0"
    and rc: "repeatCounter u = 1"
  shows "along state [100, 100, 100, 100] u =
           [PlayingForward, PlayingBackward, PlayingForward, PlayingBackward, Complete]"
    and "along repeatCounter [100, 100, 100, 100] u = [1, 1, 0, 0, 0]"
proof -
  from update_attached [OF a] obtain u1 where u1: "update 100 u = Inr u1" and a1: "attached u1"
    by blast
  note c1 = config_fields [OF update_config [OF u1]]
  note e1 = update_forward_end [OF u1 st(1,2)]
  have s1: "state u1 = PlayingBackward" "\<not> isCountdown u1" "repeatCounter u1 = 1"
    "elapsed u1 = 0"
    using e1 cfg st rc by simp_all
  from update_attached [OF a1] obtain u2 where u2: "update 100 u1 = Inr u2" and a2: "attached u2"
    by blast
  note c2 = config_fields [OF update_config [OF u2]]
  note e2 = update_backward_end [OF u2 s1(1,2)]
  have s2: "state u2 = PlayingForward" "\<not> isCountdown u2" "repeatCounter u2 = 0"
    "elapsed u2 = 0"
    using e2 c1 cfg s1 by simp_all
  from update_attached [OF a2] obtain u3 where u3: "update 100 u2 = Inr u3" and a3: "attached u3"
    by blast
  note c3 = config_fields [OF update_config [OF u3]]
  note e3 = update_forward_end [OF u3 s2(1,2)]
  have s3: "state u3 = PlayingBackward" "\<not> isCountdown u3" "repeatCounter u3 = 0"
    "elapsed u3 = 0"
    using e3 c2 c1 cfg s2 by simp_all
  from update_attached [OF a3] obtain u4 where u4: "update 100 u3 = Inr u4"
    by blast
  note e4 = update_backward_end [OF u4 s3(1,2)]
  have s4: "state u4 = Complete" "repeatCounter u4 = 0"
    using e4 c3 c2 c1 cfg s3 by simp_all
  show "along state [100, 100, 100, 100] u =
           [PlayingForward, PlayingBackward, PlayingForward, PlayingBackward, Complete]"
    using u1 u2 u3 u4 st s1 s2 s3 s4 by simp
  show "along repeatCounter [100, 100, 100, 100] u = [1, 1, 0, 0, 0]"
    using u1 u2 u3 u4 rc s1 s2 s3 s4 by simp
qed

lemma invoke_playback:
  assumes "invoke M c u = Inr u'" and "isPlaybackCall c" and "repeatCounter u > 0"
  shows "state u' \<noteq> Complete" and "repeatCounter u - 1 \<le> repeatCounter u'"
proof -
  consider (rep) diff setStart isYoyo where "c = CallOnRepeat diff setStart isYoyo"
    | (fromEnd) diff where "c = CallSetStateFromEnd diff"
    | (fromStart) diff where "c = CallSetStateFromStart diff"
    using assms(2) by (cases c) simp_all
  then have "state u' \<noteq> Complete \<and> repeatCounter u - 1 \<le> repeatCounter u'"
  proof cases
    case rep
    then have "onRepeat diff setStart isYoyo u = Inr u'" using assms(1) by simp
    from onRepeat_effect(1,3) [OF this] show ?thesis by simp
  next
    case fromEnd
    then have "setStateFromEnd diff u = Inr u'" using assms(1) by simp
    from setStateFromEnd_effect(1,3) [OF this] assms(3) show ?thesis by simp
  next
    case fromStart
    then have "setStateFromStart diff u = Inr u'" using assms(1) by simp
    from setStateFromStart_effect(1,3) [OF this] assms(3) show ?thesis by simp
  qed
  then show "state u' \<noteq> Complete" and "repeatCounter u - 1 \<le> repeatCounter u'"
    by simp_all
qed

lemma invokes_playback:
  assumes "state u \<noteq> Complete" and "real (length cs) \<le> repeatCounter u"
    and "\<forall>c\<in>set cs. isPlaybackCall c" and "invokes M cs u = Inr w"
  shows "state w \<noteq> Complete"
  using assms
proof (induction cs arbitrary: u)
  case Nil
  then show ?case by simp
next
  case (Cons c cs)
  from Cons.prems(4) obtain u1 where u1: "invoke M c u = Inr u1" and rest: "invokes M cs u1 = Inr w"
    by (auto split: sum.splits)
  have pos: "repeatCounter u > 0" using Cons.prems(2) by simp
  have pc: "isPlaybackCall c" using Cons.prems(3) by simp
  note step = invoke_playback [OF u1 pc pos]
  have "real (length cs) \<le> repeatCounter u1"
    using step(2) Cons.prems(2) by simp
  from Cons.IH [OF step(1) this _ rest] Cons.prems(3) show ?case by simp
qed



lemma invoke_config:
  assumes "invoke M c u = Inr u'"
  shows "config u' = config u"
proof (cases c)
  case CallReset
  then show ?thesis using assms reset_effect(1) by simp
next
  case (CallOnRepeat diff setStart isYoyo)
  then show ?thesis using assms onRepeat_config by simp
next
  case (CallSetStateFromEnd diff)
  then show ?thesis using assms setStateFromEnd_config by simp
next
  case (CallSetStateFromStart diff)
  then show ?thesis using assms setStateFromStart_config by simp
qed (use assms in \<open>auto simp: setters destroy_def config_def\<close>)

lemma invokes_config:
  "invokes M cs u = Inr u' \<Longrightarrow> config u' = config u"
proof (induction cs arbitrary: u)
  case Nil
  then show ?case by simp
next
  case (Cons c cs)
  from Cons.prems obtain u1 where u1: "invoke M c u = Inr u1" and rest: "invokes M cs u1 = Inr u'"
    by (auto split: sum.splits)
  from Cons.IH [OF rest] invoke_config [OF u1] show ?case by simp
qed

text \<open>
  Two consequences for the ticks of the modelled \<^verbatim>\<open>update\<close>: a tick takes at most
  one repeat and does not complete a unit that has repeats left, so a unit reset
  with \<open>repeat = -1\<close> is not complete after any \<open>MAX\<close> ticks; and a tick of
  \<open>duration + k\<close> from the start of a forward pass carries \<open>k\<close> into the next
  pass.
\<close>

lemma update_counter:
  assumes "update d u = Inr u'"
  shows "repeatCounter u - 1 \<le> repeatCounter u'"
    and "state u \<noteq> Complete \<Longrightarrow> repeatCounter u > 0 \<Longrightarrow> state u' \<noteq> Complete"
proof -
  have e: "repeatCounter v - 1 \<le> repeatCounter v' \<and> (repeatCounter v > 0 \<longrightarrow> state v' \<noteq> Complete)"
    if "setStateFromEnd x v = Inr v'" for x v v'
    using setStateFromEnd_effect(1,3) [OF that] by simp
  have s: "repeatCounter v - 1 \<le> repeatCounter v' \<and> (repeatCounter v > 0 \<longrightarrow> state v' \<noteq> Complete)"
    if "setStateFromStart x v = Inr v'" for x v v'
    using setStateFromStart_effect(1,3) [OF that] by simp
  from assms have "repeatCounter u - 1 \<le> repeatCounter u'
      \<and> (state u \<noteq> Complete \<longrightarrow> repeatCounter u > 0 \<longrightarrow> state u' \<noteq> Complete)"
    by (auto simp: update_def Let_def setters split: option.splits sum.splits if_splits
        dest!: e s)
  then show "repeatCounter u - 1 \<le> repeatCounter u'"
    and "state u \<noteq> Complete \<Longrightarrow> repeatCounter u > 0 \<Longrightarrow> state u' \<noteq> Complete"
    by simp_all
qed

lemma updates_not_complete:
  assumes "state u \<noteq> Complete" and "real (length ds) \<le> repeatCounter u"
    and "updates ds u = Inr w"
  shows "state w \<noteq> Complete"
  using assms
proof (induction ds arbitrary: u)
  case Nil
  then show ?case by simp
next
  case (Cons d ds)
  from Cons.prems(3) obtain u1 where u1: "update d u = Inr u1" and rest: "updates ds u1 = Inr w"
    by (auto split: sum.splits)
  have pos: "repeatCounter u > 0" using Cons.prems(2) by simp
  have "real (length ds) \<le> repeatCounter u1"
    using update_counter(1) [OF u1] Cons.prems(2) by simp
  from Cons.IH [OF update_counter(2) [OF u1 Cons.prems(1) pos] this rest] show ?case .
qed

lemma reset_infinite_ticks:
  assumes "repeat u = - 1" and "reset CONST_MAX u = Inr u'"
    and "real (length ds) \<le> CONST_MAX" and "updates ds u' = Inr w"
  shows "state w \<noteq> Complete"
proof -
  note r = reset_effect [OF assms(2)]
  have "state u' \<noteq> Complete" using r(4) by simp
  moreover have "real (length ds) \<le> repeatCounter u'" using r(2) assms(1,3) by simp
  ultimately show ?thesis using updates_not_complete assms(4) by blast
qed

lemma update_overshoot:
  assumes "update (duration u + k) u = Inr u'" and "state u = PlayingForward"
    and "\<not> isCountdown u" and "elapsed u = 0" and "hold u \<le> 0" and "0 \<le> k"
    and "yoyo u \<or> (0 < repeatCounter u \<and> repeatDelay u \<le> 0)"
  shows "elapsed u' = k" and "state u' = (if yoyo u then PlayingBackward else PlayingForward)"
proof -
  have e: "duration u \<le> elapsed u + (duration u + k)" using assms(4,6) by simp
  note f = update_forward_end [OF assms(1,2,3) e assms(5)]
  show "elapsed u' = k" using f(4) assms(4,7) by auto
  show "state u' = (if yoyo u then PlayingBackward else PlayingForward)"
    using f(1) assms(7) by auto
qed

section \<open>Repeat and yoyo handling\<close>

text \<open>
  Claim C1, as amended. A call of \<^verbatim>\<open>onRepeat\<close> that is not a yoyo call, on a unit
  with a positive repeat delay, and that returns, sets \<open>elapsed\<close> to
  \<open>repeatDelay - diff\<close> and enters \<open>RepeatDelay\<close>. When the key is not
  \<^verbatim>\<open>texture\<close> it also sets \<open>current\<close> to the start value and writes that value
  to the target's property. When the key is \<^verbatim>\<open>texture\<close> the snapshot and the write
  are skipped: \<open>current\<close> is unchanged, and the owner and its targets are as the
  flip toggles that the flags ask for, if any, left them.
\<close>

theorem onRepeat_repeat_delay:
  assumes "onRepeat diff setStart False u = Inr u'" and "repeatDelay u > 0"
  shows "elapsed u' = repeatDelay u - diff \<and> state u' = RepeatDelay \<and> isCountdown u'
    \<and> (key u \<noteq> ''texture'' \<longrightarrow>
          current u' = start u'
          \<and> (\<exists>tw' t'. tween u' = Some tw' \<and> targetAt tw' (targetIndex u) = Some t'
                \<and> props t' (key u) = Some (start u')))
    \<and> (key u = ''texture'' \<longrightarrow>
          current u' = current u
          \<and> (\<exists>tw0 tw1 tw2. tween u = Some tw0
                \<and> (if flipX u then callToggleFlipX tw0 (targetIndex u) else Inr tw0) = Inr tw1
                \<and> (if flipY u then callToggleFlipY tw1 (targetIndex u) else Inr tw1) = Inr tw2
                \<and> tween u' = Some tw2))"
proof -
  from assms(1) obtain tw0 tw1 tw2 where tw: "tween u = Some tw0"
    and f1: "(if flipX u then callToggleFlipX tw0 (targetIndex u) else Inr tw0) = Inr tw1"
    and f2: "(if flipY u then callToggleFlipY tw1 (targetIndex u) else Inr tw1) = Inr tw2"
    by (simp add: onRepeat_def Let_def split: option.splits sum.splits)
  have r: "elapsed u' = repeatDelay u - diff \<and> state u' = RepeatDelay \<and> isCountdown u'"
    using assms tw f1 f2
    by (auto simp: onRepeat_def Let_def setters split: sum.splits if_splits)
  have a: "current u' = start u'
        \<and> (\<exists>tw' t'. tween u' = Some tw' \<and> targetAt tw' (targetIndex u) = Some t'
              \<and> props t' (key u) = Some (start u'))"
    if "key u \<noteq> ''texture''"
    using assms tw f1 f2 that
    by (auto simp: onRepeat_def Let_def setters targetAt_def writeTarget_def
        split: sum.splits if_splits)
  have b: "current u' = current u \<and> tween u' = Some tw2" if "key u = ''texture''"
    using assms tw f1 f2 that
    by (auto simp: onRepeat_def Let_def setters)
  show ?thesis
    using r a b tw f1 f2 by blast
qed

text \<open>
  The theorem at the unit with a repeat delay of 50 and an overshoot of 10: the
  countdown starts at 40 and the target rests at the re-resolved start value 7.
\<close>

theorem onRepeat_repeat_delay_witness:
  "onRepeat 10 True False pause_unit = Inr (projr (onRepeat 10 True False pause_unit))
   \<and> repeatDelay pause_unit > 0
   \<and> key pause_unit \<noteq> ''texture''
   \<and> elapsed (projr (onRepeat 10 True False pause_unit)) = 40
   \<and> state (projr (onRepeat 10 True False pause_unit)) = RepeatDelay
   \<and> current (projr (onRepeat 10 True False pause_unit)) = 7"
proof -
  have h: "onRepeat 10 True False pause_unit = Inr (projr (onRepeat 10 True False pause_unit))"
    by (simp add: pause_unit_def example_defs onRepeat_def Let_def setters target_defs)
  have d: "repeatDelay pause_unit > 0"
    by (simp add: pause_unit_def example_defs)
  show ?thesis
    using onRepeat_repeat_delay [OF h d] h d
    by (simp add: pause_unit_def example_defs onRepeat_def Let_def setters target_defs)
qed

text \<open>
  Claim C1 as it is stated fails on the key \<^verbatim>\<open>texture\<close>: the call takes the
  non-yoyo branch with a positive repeat delay and enters \<open>RepeatDelay\<close>, but
  \<open>current\<close> stays 0 while the start value is 5, and the target has no property
  \<^verbatim>\<open>texture\<close> afterwards.
\<close>

theorem onRepeat_texture_counterexample:
  "onRepeat 10 True False texture_unit = Inr (projr (onRepeat 10 True False texture_unit))
   \<and> key texture_unit = ''texture''
   \<and> repeatDelay texture_unit > 0
   \<and> state (projr (onRepeat 10 True False texture_unit)) = RepeatDelay
   \<and> start (projr (onRepeat 10 True False texture_unit)) = 5
   \<and> current (projr (onRepeat 10 True False texture_unit)) = 0
   \<and> props (targets (the (tween (projr (onRepeat 10 True False texture_unit)))) ! 0)
        ''texture'' = None"
  by (simp add: texture_unit_def example_defs onRepeat_def Let_def setters target_defs)

text \<open>
  Claim C10. A call of \<^verbatim>\<open>onRepeat\<close> that returns adds at most one notification
  to the log: the yoyo notification exactly when \<open>isYoyo\<close> is true (the unit is
  then \<open>PlayingBackward\<close>), the repeat notification exactly when \<open>isYoyo\<close> is
  false and the repeat delay is not positive (the unit is then
  \<open>PlayingForward\<close>), and nothing when the unit enters \<open>RepeatDelay\<close>.
\<close>

theorem onRepeat_notifications:
  assumes "onRepeat diff setStart isYoyo u = Inr u'"
  shows "dispatched u' = dispatched u @
           (if isYoyo then [(TWEEN_YOYO, ''onYoyo'')]
            else if repeatDelay u \<le> 0 then [(TWEEN_REPEAT, ''onRepeat'')]
            else [])
         \<and> state u' =
           (if isYoyo then PlayingBackward
            else if repeatDelay u \<le> 0 then PlayingForward
            else RepeatDelay)"
  using assms
  by (auto simp: onRepeat_def Let_def setters dispatchEvent_def
      split: option.splits sum.splits if_splits)

text \<open>
  The theorem at the unit with a repeat delay of 50: the repeat call logs
  nothing, the yoyo call logs the yoyo notification.
\<close>

theorem onRepeat_notifications_witness:
  "onRepeat 10 True False pause_unit = Inr (projr (onRepeat 10 True False pause_unit))
   \<and> dispatched (projr (onRepeat 10 True False pause_unit)) = []
   \<and> state (projr (onRepeat 10 True False pause_unit)) = RepeatDelay
   \<and> onRepeat 10 True True pause_unit = Inr (projr (onRepeat 10 True True pause_unit))
   \<and> dispatched (projr (onRepeat 10 True True pause_unit)) = [(TWEEN_YOYO, ''onYoyo'')]
   \<and> state (projr (onRepeat 10 True True pause_unit)) = PlayingBackward"
proof -
  have h1: "onRepeat 10 True False pause_unit = Inr (projr (onRepeat 10 True False pause_unit))"
    by (simp add: pause_unit_def example_defs onRepeat_def Let_def setters target_defs)
  have h2: "onRepeat 10 True True pause_unit = Inr (projr (onRepeat 10 True True pause_unit))"
    by (simp add: pause_unit_def example_defs onRepeat_def Let_def setters target_defs)
  have d: "dispatched pause_unit = [] \<and> repeatDelay pause_unit = 50"
    by (simp add: pause_unit_def example_defs)
  show ?thesis
    using onRepeat_notifications [OF h1] onRepeat_notifications [OF h2] h1 h2 d
    by simp
qed

text \<open>
  Claim C4. When a forward pass ends with an overshoot \<open>k\<close>,
  \<open>0 < k < duration\<close>, and the unit goes to \<open>PlayingBackward\<close> (yoyo) or
  straight back to \<open>PlayingForward\<close> (a repeat without repeat delay), then
  \<open>elapsed\<close> is \<open>k\<close> and \<open>progress\<close> is \<open>k / duration\<close>, which lies strictly
  between 0 and 1.
\<close>

theorem overshoot_carried:
  assumes "setStateFromEnd k u = Inr u'"
    and "0 < k" and "k < duration u"
    and "yoyo u \<or> (0 < repeatCounter u \<and> repeatDelay u \<le> 0)"
  shows "state u' = (if yoyo u then PlayingBackward else PlayingForward)
    \<and> elapsed u' = k \<and> progress u' = k / duration u
    \<and> 0 < progress u' \<and> progress u' < 1"
  using assms
  by (auto simp: setStateFromEnd_def onRepeat_def Let_def setters dispatchEvent_def
      split: option.splits sum.splits if_splits)

text \<open>
  The theorem at the yoyo unit of duration 100 with an overshoot of 30: the
  backward pass starts at \<open>elapsed = 30\<close> and \<open>progress = 3 / 10\<close>.
\<close>

theorem overshoot_carried_witness:
  "setStateFromEnd 30 yoyo_unit = Inr (projr (setStateFromEnd 30 yoyo_unit))
   \<and> (0::real) < 30 \<and> 30 < duration yoyo_unit \<and> yoyo yoyo_unit
   \<and> state (projr (setStateFromEnd 30 yoyo_unit)) = PlayingBackward
   \<and> elapsed (projr (setStateFromEnd 30 yoyo_unit)) = 30
   \<and> progress (projr (setStateFromEnd 30 yoyo_unit)) = 3 / 10"
proof -
  have h: "setStateFromEnd 30 yoyo_unit = Inr (projr (setStateFromEnd 30 yoyo_unit))"
    by (simp add: yoyo_unit_def example_defs setStateFromEnd_def onRepeat_def Let_def
        setters target_defs)
  have c: "(0::real) < 30 \<and> 30 < duration yoyo_unit \<and> yoyo yoyo_unit"
    by (simp add: yoyo_unit_def example_defs)
  have r: "state (projr (setStateFromEnd 30 yoyo_unit)) = PlayingBackward
    \<and> elapsed (projr (setStateFromEnd 30 yoyo_unit)) = 30
    \<and> progress (projr (setStateFromEnd 30 yoyo_unit)) = 30 / duration yoyo_unit"
    using overshoot_carried [OF h] c by simp
  have d: "duration yoyo_unit = 100"
    by (simp add: yoyo_unit_def example_defs)
  show ?thesis
    using h c r d by (intro conjI) (assumption | simp)+
qed

section \<open>The end-of-pass policies\<close>

text \<open>
  Claim C2. At the end of a forward pass \<^verbatim>\<open>setStateFromEnd\<close> decides in this
  order: with \<open>yoyo\<close> set it calls \<^verbatim>\<open>onRepeat\<close> with \<open>setStart\<close> and \<open>isYoyo\<close>
  true, whatever the repeat counter is; otherwise with a positive repeat counter it
  calls \<^verbatim>\<open>onRepeat\<close> with \<open>setStart\<close> true and \<open>isYoyo\<close> false; otherwise the unit
  is \<open>Complete\<close>. At the end of a backward pass \<^verbatim>\<open>setStateFromStart\<close> calls
  \<^verbatim>\<open>onRepeat\<close> with \<open>setStart\<close> false when the repeat counter is positive, and
  completes the unit otherwise. The states and counters that result are as these
  calls give them, and the backward-end policy leaves the start value as it is.
\<close>

theorem end_policies:
  "setStateFromEnd diff u =
     (if yoyo u then onRepeat diff True True u
      else if repeatCounter u > 0 then onRepeat diff True False u
      else Inr (u\<lparr>state := Complete, isCountdown := False\<rparr>))
   \<and> setStateFromStart diff u =
     (if repeatCounter u > 0 then onRepeat diff False False u
      else Inr (u\<lparr>state := Complete, isCountdown := False\<rparr>))
   \<and> (setStateFromEnd diff u = Inr u' \<longrightarrow>
         state u' =
           (if yoyo u then PlayingBackward
            else if repeatCounter u > 0
            then (if repeatDelay u > 0 then RepeatDelay else PlayingForward)
            else Complete)
         \<and> repeatCounter u' =
           (if \<not> yoyo u \<and> repeatCounter u > 0 then repeatCounter u - 1 else repeatCounter u))
   \<and> (setStateFromStart diff u = Inr u'' \<longrightarrow>
         state u'' =
           (if repeatCounter u > 0
            then (if repeatDelay u > 0 then RepeatDelay else PlayingForward)
            else Complete)
         \<and> repeatCounter u'' =
           (if repeatCounter u > 0 then repeatCounter u - 1 else repeatCounter u)
         \<and> start u'' = start u)"
  apply (intro conjI impI)
  apply (simp add: setStateFromEnd_def setters)
  apply (simp add: setStateFromStart_def setters)
     apply (auto simp: setStateFromEnd_def setStateFromStart_def onRepeat_def Let_def setters
      dispatchEvent_def split: option.splits sum.splits if_splits)
  done


text \<open>
  The theorem at the yoyo unit with no repeat left, which bounces all the same,
  and at the unit with two repeats left and a repeat delay.
\<close>

theorem end_policies_witness:
  "setStateFromEnd 0 yoyo_unit = Inr (projr (setStateFromEnd 0 yoyo_unit))
   \<and> state (projr (setStateFromEnd 0 yoyo_unit)) = PlayingBackward
   \<and> repeatCounter (projr (setStateFromEnd 0 yoyo_unit)) = 0
   \<and> setStateFromStart 0 pause_unit = Inr (projr (setStateFromStart 0 pause_unit))
   \<and> state (projr (setStateFromStart 0 pause_unit)) = RepeatDelay
   \<and> repeatCounter (projr (setStateFromStart 0 pause_unit)) = 1
   \<and> start (projr (setStateFromStart 0 pause_unit)) = 5"
proof -
  have h1: "setStateFromEnd 0 yoyo_unit = Inr (projr (setStateFromEnd 0 yoyo_unit))"
    by (simp add: yoyo_unit_def example_defs setStateFromEnd_def onRepeat_def Let_def
        setters target_defs)
  have h2: "setStateFromStart 0 pause_unit = Inr (projr (setStateFromStart 0 pause_unit))"
    by (simp add: pause_unit_def example_defs setStateFromStart_def onRepeat_def Let_def
        setters target_defs)
  have c: "yoyo yoyo_unit \<and> repeatCounter yoyo_unit = 0 \<and> repeatCounter pause_unit = 2
      \<and> repeatDelay pause_unit = 50 \<and> start pause_unit = 5"
    by (simp add: yoyo_unit_def pause_unit_def example_defs)
  have r1: "state (projr (setStateFromEnd 0 yoyo_unit)) = PlayingBackward
      \<and> repeatCounter (projr (setStateFromEnd 0 yoyo_unit)) = 0"
    using end_policies [of 0 yoyo_unit "projr (setStateFromEnd 0 yoyo_unit)",
        THEN conjunct2, THEN conjunct2, THEN conjunct1, rule_format, OF h1] c
    by simp
  have r2: "state (projr (setStateFromStart 0 pause_unit)) = RepeatDelay
      \<and> repeatCounter (projr (setStateFromStart 0 pause_unit)) = 1
      \<and> start (projr (setStateFromStart 0 pause_unit)) = 5"
    using end_policies [of 0 pause_unit _ "projr (setStateFromStart 0 pause_unit)",
        THEN conjunct2, THEN conjunct2, THEN conjunct2, rule_format, OF h2] c
    by simp
  show ?thesis
    using h1 h2 r1 r2 by (intro conjI) (assumption | simp)+
qed

section \<open>Yoyo and the repeat counter\<close>

text \<open>
  Claim C3. A call of \<^verbatim>\<open>onRepeat\<close> with \<open>isYoyo\<close> true that returns leaves the
  unit \<open>PlayingBackward\<close>, has dispatched the yoyo notification and has not
  changed the repeat counter. So an attached unit with duration 100, yoyo, one
  repeat left, no hold and no repeat delay, at the start of its forward pass,
  goes through \<open>PlayingForward\<close>, \<open>PlayingBackward\<close>, \<open>PlayingForward\<close>,
  \<open>PlayingBackward\<close>, \<open>Complete\<close> under four ticks of 100, the counter being
  taken at the end of the first backward pass only.
\<close>

theorem yoyo_keeps_repeatCounter:
  "(onRepeat diff setStart True v = Inr v' \<longrightarrow>
       state v' = PlayingBackward \<and> repeatCounter v' = repeatCounter v
       \<and> dispatched v' = dispatched v @ [(TWEEN_YOYO, ''onYoyo'')])
   \<and> (attached u \<and> duration u = 100 \<and> yoyo u \<and> repeatCounter u = 1 \<and> hold u = 0
        \<and> repeatDelay u = 0 \<and> state u = PlayingForward \<and> \<not> isCountdown u \<and> elapsed u = 0 \<longrightarrow>
      along state [100, 100, 100, 100] u =
        [PlayingForward, PlayingBackward, PlayingForward, PlayingBackward, Complete]
      \<and> along repeatCounter [100, 100, 100, 100] u = [1, 1, 0, 0, 0])"
proof (rule conjI)
  show "onRepeat diff setStart True v = Inr v' \<longrightarrow>
       state v' = PlayingBackward \<and> repeatCounter v' = repeatCounter v
       \<and> dispatched v' = dispatched v @ [(TWEEN_YOYO, ''onYoyo'')]"
    by (auto simp: onRepeat_def Let_def setters dispatchEvent_def
        split: option.splits sum.splits if_splits)
  show "attached u \<and> duration u = 100 \<and> yoyo u \<and> repeatCounter u = 1 \<and> hold u = 0
        \<and> repeatDelay u = 0 \<and> state u = PlayingForward \<and> \<not> isCountdown u \<and> elapsed u = 0 \<longrightarrow>
      along state [100, 100, 100, 100] u =
        [PlayingForward, PlayingBackward, PlayingForward, PlayingBackward, Complete]
      \<and> along repeatCounter [100, 100, 100, 100] u = [1, 1, 0, 0, 0]"
    using yoyo_scenario [of u] by simp
qed

text \<open>
  The theorem at the yoyo unit: the call on the unit itself, and the scenario on
  the unit after \<^verbatim>\<open>reset\<close> and the tick that renders its start value.
\<close>

theorem yoyo_keeps_repeatCounter_witness:
  "onRepeat 0 True True yoyo_unit = Inr (projr (onRepeat 0 True True yoyo_unit))
   \<and> repeatCounter (projr (onRepeat 0 True True yoyo_unit)) = repeatCounter yoyo_unit
   \<and> attached (projr (updates [100] (projr (reset 999999999999 yoyo_unit))))
   \<and> repeatCounter (projr (updates [100] (projr (reset 999999999999 yoyo_unit)))) = 1
   \<and> state (projr (updates [100] (projr (reset 999999999999 yoyo_unit)))) = PlayingForward
   \<and> along state [100, 100, 100, 100]
        (projr (updates [100] (projr (reset 999999999999 yoyo_unit)))) =
      [PlayingForward, PlayingBackward, PlayingForward, PlayingBackward, Complete]"
proof -
  have h: "onRepeat 0 True True yoyo_unit = Inr (projr (onRepeat 0 True True yoyo_unit))"
    by (simp add: yoyo_unit_def example_defs onRepeat_def Let_def setters target_defs)
  have p: "attached (projr (updates [100] (projr (reset 999999999999 yoyo_unit))))
      \<and> duration (projr (updates [100] (projr (reset 999999999999 yoyo_unit)))) = 100
      \<and> yoyo (projr (updates [100] (projr (reset 999999999999 yoyo_unit))))
      \<and> repeatCounter (projr (updates [100] (projr (reset 999999999999 yoyo_unit)))) = 1
      \<and> hold (projr (updates [100] (projr (reset 999999999999 yoyo_unit)))) = 0
      \<and> repeatDelay (projr (updates [100] (projr (reset 999999999999 yoyo_unit)))) = 0
      \<and> state (projr (updates [100] (projr (reset 999999999999 yoyo_unit)))) = PlayingForward
      \<and> \<not> isCountdown (projr (updates [100] (projr (reset 999999999999 yoyo_unit))))
      \<and> elapsed (projr (updates [100] (projr (reset 999999999999 yoyo_unit)))) = 0"
    by (simp add: yoyo_unit_def example_defs reset_def update_def Let_def setters target_defs
        attached_def)
  note t = yoyo_keeps_repeatCounter [of 0 True yoyo_unit "projr (onRepeat 0 True True yoyo_unit)"
      "projr (updates [100] (projr (reset 999999999999 yoyo_unit)))"]
  from t h have a: "repeatCounter (projr (onRepeat 0 True True yoyo_unit)) = repeatCounter yoyo_unit"
    by blast
  from t p have b: "along state [100, 100, 100, 100]
        (projr (updates [100] (projr (reset 999999999999 yoyo_unit)))) =
      [PlayingForward, PlayingBackward, PlayingForward, PlayingBackward, Complete]"
    by blast
  show ?thesis
    using h a b p by blast
qed

section \<open>Counting the forward passes\<close>




section \<open>Reset\<close>

text \<open>
  Claim C6. After \<^verbatim>\<open>reset\<close>, with \<open>t1 = duration + hold\<close> (plus the duration
  again under yoyo) and \<open>t2 = t1 + repeatDelay\<close>, the total duration is
  \<open>delay + t1\<close>, plus \<open>t2 * repeat\<close> when \<open>repeat > 0\<close>, or plus
  \<open>t2 * MAX\<close> when \<open>repeat = -1\<close>. In that last case the owner's
  \<open>isInfinite\<close> is true and the repeat counter is \<open>MAX\<close>, so that the unit is
  not \<open>Complete\<close> after any sequence of at most \<open>MAX\<close> calls of the end-of-pass
  policies and of \<^verbatim>\<open>onRepeat\<close>; a tick makes at most one such call.
\<close>

theorem reset_totalDuration_arithmetic:
  assumes "reset CONST_MAX u = Inr u'"
  shows "(let t1 = duration u + hold u + (if yoyo u then duration u else 0);
              t2 = t1 + repeatDelay u
          in totalDuration u' =
               delay u' + t1
               + (if repeat u = - 1 then t2 * CONST_MAX
                  else if repeat u > 0 then t2 * repeat u
                  else 0))
    \<and> (repeat u = - 1 \<longrightarrow>
          repeatCounter u' = CONST_MAX
          \<and> tween u' \<noteq> None \<and> isInfinite (the (tween u'))
          \<and> ((\<forall>c\<in>set cs. isPlaybackCall c) \<and> real (length cs) \<le> CONST_MAX
               \<and> invokes CONST_MAX cs u' = Inr w \<longrightarrow> state w \<noteq> Complete))"
proof -
  from reset_delay(1) [OF assms] obtain tw where tw: "tween u = Some tw" by blast
  from reset_owner [OF assms tw] obtain tw' where tw': "tween u' = Some tw'"
    and inf: "isInfinite tw' = (repeat u = - 1 \<or> isInfinite tw)"
    by blast
  note r = reset_effect [OF assms]
  have nc: "state u' \<noteq> Complete" using r(4) by simp
  have play: "state w \<noteq> Complete"
    if "repeat u = - 1" "\<forall>c\<in>set cs. isPlaybackCall c" "real (length cs) \<le> CONST_MAX"
      "invokes CONST_MAX cs u' = Inr w"
    using invokes_playback [OF nc _ that(2,4)] r(2) that(1,3) by simp
  show ?thesis
    using reset_totalDuration [OF assms] r(2) tw' inf play
    by (simp add: Let_def)
qed


text \<open>
  The theorem at the unit that repeats forever, with duration 100, yoyo, a hold of
  20 and a repeat delay of 30: \<open>t1 = 220\<close> and \<open>t2 = 250\<close>, and three ends of
  pass do not complete it.
\<close>

theorem reset_totalDuration_arithmetic_witness:
  "reset 999999999999 infinite_unit = Inr (projr (reset 999999999999 infinite_unit))
   \<and> repeat infinite_unit = - 1
   \<and> totalDuration (projr (reset 999999999999 infinite_unit)) = 220 + 250 * 999999999999
   \<and> repeatCounter (projr (reset 999999999999 infinite_unit)) = 999999999999
   \<and> isInfinite (the (tween (projr (reset 999999999999 infinite_unit))))
   \<and> list_all isPlaybackCall
        [CallSetStateFromEnd 0, CallSetStateFromStart 0, CallSetStateFromEnd 5]
   \<and> real (length [CallSetStateFromEnd 0, CallSetStateFromStart 0, CallSetStateFromEnd 5])
        \<le> 999999999999
   \<and> invokes 999999999999 [CallSetStateFromEnd 0, CallSetStateFromStart 0, CallSetStateFromEnd 5]
        (projr (reset 999999999999 infinite_unit))
      = Inr (projr (invokes 999999999999
               [CallSetStateFromEnd 0, CallSetStateFromStart 0, CallSetStateFromEnd 5]
               (projr (reset 999999999999 infinite_unit))))
   \<and> state (projr (invokes 999999999999
               [CallSetStateFromEnd 0, CallSetStateFromStart 0, CallSetStateFromEnd 5]
               (projr (reset 999999999999 infinite_unit)))) \<noteq> Complete"
proof -
  let ?cs = "[CallSetStateFromEnd 0, CallSetStateFromStart 0, CallSetStateFromEnd 5]"
  let ?r = "projr (reset 999999999999 infinite_unit)"
  have r: "reset 999999999999 infinite_unit = Inr ?r"
    by (simp add: infinite_unit_def example_defs reset_def Let_def setters target_defs)
  have c: "repeat infinite_unit = - 1 \<and> duration infinite_unit = 100 \<and> hold infinite_unit = 20
      \<and> yoyo infinite_unit \<and> repeatDelay infinite_unit = 30"
    by (simp add: infinite_unit_def example_defs)
  have d: "delay ?r = 0"
    by (simp add: infinite_unit_def example_defs reset_def Let_def setters target_defs)
  have p: "(\<forall>c\<in>set ?cs. isPlaybackCall c) \<and> real (length ?cs) \<le> 999999999999"
    by simp
  have q: "list_all isPlaybackCall ?cs"
    by simp
  have i: "invokes 999999999999 ?cs ?r = Inr (projr (invokes 999999999999 ?cs ?r))"
    by (simp add: infinite_unit_def example_defs reset_def Let_def setters target_defs
        setStateFromEnd_def setStateFromStart_def onRepeat_def dispatchEvent_def)
  note t = reset_totalDuration_arithmetic [OF r, of ?cs "projr (invokes 999999999999 ?cs ?r)"]
  from t c d have a: "totalDuration ?r = 220 + 250 * 999999999999"
    by (simp add: Let_def)
  from t c have b: "repeatCounter ?r = 999999999999 \<and> isInfinite (the (tween ?r))"
    by simp
  from t c p i have n: "state (projr (invokes 999999999999 ?cs ?r)) \<noteq> Complete"
    by blast
  show ?thesis
    using r c a b p q i n by blast
qed




text \<open>
  Claim C8. Every \<^verbatim>\<open>reset\<close> that returns sets the owner's duration to the
  maximum of its current value and the unit's total duration, and the owner's
  start delay to the minimum of its current value and the unit's delay. So the
  owner's duration never decreases, its start delay never increases, and a value
  that is not beaten, a tie included, is kept.
\<close>

theorem reset_publishes_summary:
  assumes "reset CONST_MAX u = Inr u'" and "tween u = Some tw"
  shows "tween u' \<noteq> None
    \<and> tween_duration (the (tween u')) = max (tween_duration tw) (totalDuration u')
    \<and> startDelay (the (tween u')) = min (startDelay tw) (delay u')
    \<and> tween_duration tw \<le> tween_duration (the (tween u'))
    \<and> startDelay (the (tween u')) \<le> startDelay tw
    \<and> (totalDuration u' \<le> tween_duration tw \<longrightarrow>
          tween_duration (the (tween u')) = tween_duration tw)
    \<and> (startDelay tw \<le> delay u' \<longrightarrow> startDelay (the (tween u')) = startDelay tw)"
  using reset_owner [OF assms] by auto

text \<open>
  The theorem at the unit with three repeats, on an owner whose duration and start
  delay are 0: the duration becomes 400, the start delay stays 0.
\<close>

theorem reset_publishes_summary_witness:
  "reset 999999999999 repeat_unit = Inr (projr (reset 999999999999 repeat_unit))
   \<and> tween repeat_unit = Some example_tween
   \<and> tween_duration example_tween = 0 \<and> startDelay example_tween = 0
   \<and> totalDuration (projr (reset 999999999999 repeat_unit)) = 400
   \<and> tween_duration (the (tween (projr (reset 999999999999 repeat_unit)))) = 400
   \<and> startDelay (the (tween (projr (reset 999999999999 repeat_unit)))) = 0"
proof -
  let ?r = "projr (reset 999999999999 repeat_unit)"
  have r: "reset 999999999999 repeat_unit = Inr ?r"
    by (simp add: repeat_unit_def example_defs reset_def Let_def setters target_defs)
  have o: "tween repeat_unit = Some example_tween"
    by (simp add: repeat_unit_def BaseTweenData_def)
  have e: "tween_duration example_tween = 0 \<and> startDelay example_tween = 0"
    by (simp add: example_tween_def)
  have v: "totalDuration ?r = 400 \<and> delay ?r = 0"
    by (simp add: repeat_unit_def example_defs reset_def Let_def setters target_defs)
  from reset_publishes_summary [OF r o] e v
  have "tween_duration (the (tween ?r)) = 400 \<and> startDelay (the (tween ?r)) = 0"
    by simp
  then show ?thesis
    using r o e v by blast
qed

section \<open>The duration is positive\<close>

text \<open>
  Claim C9. The constructor stores 0.01 for a duration that is not positive and
  the given duration otherwise, so the stored duration is positive. No method of
  the class writes the field: after any sequence of calls that returns, the
  duration is still that value, and the division in \<^verbatim>\<open>onRepeat\<close> is by a
  positive number.
\<close>

theorem duration_positive:
  "duration (BaseTweenData this tw i gd d y h r rd fx fy) = (if d \<le> 0 then 0.01 else d)
   \<and> 0 < duration (BaseTweenData this tw i gd d y h r rd fx fy)
   \<and> (invokes CONST_MAX cs (BaseTweenData this tw i gd d y h r rd fx fy) = Inr u \<longrightarrow>
        duration u = (if d \<le> 0 then 0.01 else d) \<and> 0 < duration u)"
proof -
  have c: "duration (BaseTweenData this tw i gd d y h r rd fx fy) = (if d \<le> 0 then 0.01 else d)"
    by (simp add: BaseTweenData_def)
  then have p: "0 < duration (BaseTweenData this tw i gd d y h r rd fx fy)"
    by simp
  have "duration u = duration (BaseTweenData this tw i gd d y h r rd fx fy)"
    if "invokes CONST_MAX cs (BaseTweenData this tw i gd d y h r rd fx fy) = Inr u"
    using config_fields(2) [OF invokes_config [OF that]] .
  then show ?thesis
    using c p by presburger
qed

text \<open>
  The theorem at a unit constructed with the duration \<open>-5\<close>: the stored duration
  is 0.01, also after a reset, two ends of pass and \<^verbatim>\<open>destroy\<close>; an overshoot
  of 3 gives the progress \<open>3 / 0.01\<close>.
\<close>

theorem duration_positive_witness:
  "duration (BaseTweenData example_this example_tween 0 no_delay (- 5) False 0 1 0 False False)
     = 0.01
   \<and> invokes 999999999999 [CallReset, CallSetStateFromEnd 3, CallSetStateFromEnd 0, CallDestroy]
        (BaseTweenData example_this example_tween 0 no_delay (- 5) False 0 1 0 False False)
      = Inr (projr (invokes 999999999999
               [CallReset, CallSetStateFromEnd 3, CallSetStateFromEnd 0, CallDestroy]
               (BaseTweenData example_this example_tween 0 no_delay (- 5) False 0 1 0 False False)))
   \<and> duration (projr (invokes 999999999999
               [CallReset, CallSetStateFromEnd 3, CallSetStateFromEnd 0, CallDestroy]
               (BaseTweenData example_this example_tween 0 no_delay (- 5) False 0 1 0 False False)))
     = 0.01
   \<and> progress (projr (invokes 999999999999 [CallReset, CallSetStateFromEnd 3]
               (BaseTweenData example_this example_tween 0 no_delay (- 5) False 0 1 0 False False)))
     = 300"
proof -
  let ?u = "BaseTweenData example_this example_tween 0 no_delay (- 5) False 0 1 0 False False"
  let ?cs = "[CallReset, CallSetStateFromEnd 3, CallSetStateFromEnd 0, CallDestroy]"
  have i: "invokes 999999999999 ?cs ?u = Inr (projr (invokes 999999999999 ?cs ?u))"
    by (simp add: example_defs reset_def Let_def setters target_defs destroy_def
        setStateFromEnd_def onRepeat_def dispatchEvent_def)
  have g: "progress (projr (invokes 999999999999 [CallReset, CallSetStateFromEnd 3] ?u)) = 300"
    by (simp add: example_defs reset_def Let_def setters target_defs
        setStateFromEnd_def onRepeat_def dispatchEvent_def)
  note t = duration_positive [of example_this example_tween 0 no_delay "- 5" False 0 1 0 False
      False 999999999999 ?cs "projr (invokes 999999999999 ?cs ?u)"]
  from t have a: "duration ?u = 0.01" by simp
  from t i have b: "duration (projr (invokes 999999999999 ?cs ?u)) = 0.01" by simp
  show ?thesis
    using a i b g by blast
qed

end
